theory Spec2Isabelle
  imports Main "HOL-Library.Sublist"
begin

section \<open>Skelenox: the collaborative IDA Pro agent of Polichombr\<close>

text \<open>
  A shallow embedding of \<^verbatim>\<open>skelenox.py\<close>. The agent is Python 2 code running inside
  the IDA disassembler: strings read from the database are byte strings
  (\<^verbatim>\<open>str\<close>), strings decoded from the server's JSON are \<^verbatim>\<open>unicode\<close> objects.
\<close>

subsection \<open>Python strings\<close>

type_synonym bytes = string

text \<open>A \<^verbatim>\<open>unicode\<close> object is the list of its code units, as numbers.\<close>

type_synonym unicode = "nat list"

definition ascii :: "char \<Rightarrow> bool" where
  "ascii c = ((of_char c :: nat) < 128)"

text \<open>\<^verbatim>\<open>u.encode('ascii', 'replace')\<close> and \<^verbatim>\<open>u.encode('ascii', 'ignore')\<close>.\<close>

definition encode_replace :: "unicode \<Rightarrow> bytes" where
  "encode_replace u = map (\<lambda>n. if n < 128 then char_of n else CHR ''?'') u"


text \<open>
  Comparing a \<^verbatim>\<open>str\<close> with a \<^verbatim>\<open>unicode\<close> decodes the \<^verbatim>\<open>str\<close> as ASCII; when that
  fails the two objects are unequal.
\<close>

definition str_eq_unicode :: "bytes \<Rightarrow> unicode \<Rightarrow> bool" where
  "str_eq_unicode s u = (list_all ascii s \<and> map of_char s = u)"

text \<open>\<^verbatim>\<open>s.lower()\<close> on a byte string touches the letters A to Z only.\<close>

definition lower_char :: "char \<Rightarrow> char" where
  "lower_char c =
     (let n = (of_char c :: nat) in if 65 \<le> n \<and> n \<le> 90 then char_of (n + 32) else c)"

definition lower :: "bytes \<Rightarrow> bytes" where
  "lower s = map lower_char s"


text \<open>
  \<^verbatim>\<open>s.replace(old, new)\<close>: every non-overlapping occurrence of \<^verbatim>\<open>old\<close>, from the
  left. With an empty \<^verbatim>\<open>old\<close> Python puts \<^verbatim>\<open>new\<close> before every character and at
  the end.
\<close>

fun replace_from :: "bytes \<Rightarrow> bytes \<Rightarrow> bytes \<Rightarrow> bytes" where
  "replace_from old new [] = []"
| "replace_from old new (c # cs) =
     (if prefix old (c # cs)
      then new @ replace_from old new (drop (length old - 1) cs)
      else c # replace_from old new cs)"

definition replace :: "bytes \<Rightarrow> bytes \<Rightarrow> bytes \<Rightarrow> bytes" where
  "replace s old new =
     (if old = [] then new @ concat (map (\<lambda>c. c # new) s) else replace_from old new s)"

subsection \<open>SkelUtils: the name and comment filters\<close>

definition default_values :: "bytes list" where
  "default_values = [''sub_'', ''dword_'', ''unk_'', ''byte_'', ''word_'', ''loc_'']"

text \<open>
  \<^verbatim>\<open>for value in default_values: if value in name[:len(value)+1]: return True\<close>
\<close>

fun name_blacklist_loop :: "bytes list \<Rightarrow> bytes \<Rightarrow> bool" where
  "name_blacklist_loop [] name = False"
| "name_blacklist_loop (v # vs) name =
     (if sublist v (take (length v + 1) name) then True else name_blacklist_loop vs name)"

definition name_blacklist :: "bytes \<Rightarrow> bool" where
  "name_blacklist name = name_blacklist_loop default_values name"




subsection \<open>Python values and exceptions\<close>

datatype error =
    IOError | CannotSendRequest | SocketError | KeyError | TypeError | AttributeError
  | ValueError | UnicodeDecodeError

type_synonym 'a result = "error + 'a"

text \<open>
  What \<^verbatim>\<open>json.loads\<close> returns; every string is a \<^verbatim>\<open>unicode\<close> object, and the
  numbers of the protocol (addresses, sample ids) are integers.
\<close>

datatype json =
    JNull | JBool bool | JInt int | JStr unicode | JList "json list"
  | JDict "(string \<times> json) list"

text \<open>\<^verbatim>\<open>if v:\<close>\<close>

fun truthy :: "json \<Rightarrow> bool" where
  "truthy JNull = False"
| "truthy (JBool b) = b"
| "truthy (JInt n) = (n \<noteq> 0)"
| "truthy (JStr u) = (u \<noteq> [])"
| "truthy (JList l) = (l \<noteq> [])"
| "truthy (JDict d) = (d \<noteq> [])"

text \<open>\<^verbatim>\<open>v[key]\<close> with a string key.\<close>

fun getitem :: "json \<Rightarrow> string \<Rightarrow> json result" where
  "getitem (JDict d) key = (case map_of d key of None \<Rightarrow> Inl KeyError | Some v \<Rightarrow> Inr v)"
| "getitem v key = Inl TypeError"

text \<open>An address handed to an IDA function must be an integer (\<^verbatim>\<open>bool\<close> is one).\<close>

fun as_ea :: "json \<Rightarrow> int result" where
  "as_ea (JInt n) = Inr n"
| "as_ea (JBool b) = Inr (if b then 1 else 0)"
| "as_ea v = Inl TypeError"

text \<open>\<^verbatim>\<open>s == v\<close> for \<^verbatim>\<open>s\<close> read from the database (a \<^verbatim>\<open>str\<close> or \<^verbatim>\<open>None\<close>).\<close>

fun host_eq :: "bytes option \<Rightarrow> json \<Rightarrow> bool" where
  "host_eq None JNull = True"
| "host_eq (Some s) (JStr u) = str_eq_unicode s u"
| "host_eq s v = False"

subsection \<open>The IDA database\<close>

text \<open>
  The host is the capability surface the agent reads and writes: the plain and the
  repeatable comment, the name and the type at an address, the address range of the
  program, and the analyst who answers the \<^verbatim>\<open>AskYN\<close> dialogs (1 is yes, 0 no, -1
  cancel), in the order they are shown. A write to the database succeeds.
  \<^verbatim>\<open>idaapi.execute_sync\<close> runs its callback at once, and an exception of the callback
  reaches the caller; \<open>synced\<close> counts the callbacks.
\<close>

record workspace =
  Comment :: "int \<Rightarrow> bytes option"
  RptCmt :: "int \<Rightarrow> bytes option"
  GetTrueName :: "int \<Rightarrow> bytes option"
  GetType :: "int \<Rightarrow> bytes option"
  MinEA :: int
  MaxEA :: int
  analyst :: "nat \<Rightarrow> int"
  asked :: nat
  synced :: nat

definition MakeRptCmt :: "workspace \<Rightarrow> int \<Rightarrow> bytes \<Rightarrow> workspace" where
  "MakeRptCmt w ea s = w\<lparr>RptCmt := (RptCmt w)(ea := Some s)\<rparr>"



text \<open>What the database holds, without the dialogs and the callback counter.\<close>

definition stores ::
  "workspace \<Rightarrow> (int \<Rightarrow> bytes option) \<times> (int \<Rightarrow> bytes option) \<times> (int \<Rightarrow> bytes option)" where
  "stores w = (Comment w, RptCmt w, GetTrueName w)"

subsection \<open>SkelUtils: the local applier\<close>

text \<open>
  \<^verbatim>\<open>make_rpt\<close>, scheduled with \<^verbatim>\<open>execute_sync\<close>:
  \<^verbatim>\<open>idc.MakeRptCmt(comment["address"], comment["data"].encode('ascii', 'replace'))\<close>
\<close>

definition make_rpt :: "workspace \<Rightarrow> int \<Rightarrow> json \<Rightarrow> unit result \<times> workspace" where
  "make_rpt w ea d =
     (let w1 = w\<lparr>synced := Suc (synced w)\<rparr> in
      case d of
        JStr u \<Rightarrow> (Inr (), MakeRptCmt w1 ea (encode_replace u))
      | _ \<Rightarrow> (Inl AttributeError, w1))"

text \<open>
  \<^verbatim>\<open>cmt = Comment(comment["address"])\<close>
  \<^verbatim>\<open>if cmt != comment["data"] and RptCmt(comment["address"]) != comment["data"]:\<close>
  \<^verbatim>\<open>    return idaapi.execute_sync(make_rpt, idaapi.MFF_WRITE)\<close>
\<close>

definition execute_comment :: "workspace \<Rightarrow> json \<Rightarrow> unit result \<times> workspace" where
  "execute_comment w comment =
     (case getitem comment ''address'' of
        Inl e \<Rightarrow> (Inl e, w)
      | Inr a \<Rightarrow>
     (case as_ea a of
        Inl e \<Rightarrow> (Inl e, w)
      | Inr ea \<Rightarrow>
     (case getitem comment ''data'' of
        Inl e \<Rightarrow> (Inl e, w)
      | Inr d \<Rightarrow>
         if \<not> host_eq (Comment w ea) d \<and> \<not> host_eq (RptCmt w ea) d
         then make_rpt w ea d
         else (Inr (), w))))"






subsection \<open>SkelUtils: type strings\<close>

definition fpconventions :: "bytes list" where
  "fpconventions = [''__cdecl *'', ''__stdcall *'', ''__fastcall *'', ''__thiscall *'']"

definition cconventions :: "bytes list" where
  "cconventions = [''__cdecl'', ''__stdcall'', ''__fastcall'', ''__thiscall'']"

text \<open>
  \<^verbatim>\<open>for conv in fpconventions:\<close>
  \<^verbatim>\<open>    if conv in typestr: mtype = typestr.replace(conv, conv + lname); flag = True\<close>
  The loop state is \<^verbatim>\<open>(flag, mtype)\<close>; \<open>sep\<close> is what stands between the marker and
  the name.
\<close>

fun patch_conventions ::
  "bytes list \<Rightarrow> bytes \<Rightarrow> bytes \<Rightarrow> bytes \<Rightarrow> bool \<times> bytes option \<Rightarrow> bool \<times> bytes option" where
  "patch_conventions [] sep typestr lname st = st"
| "patch_conventions (conv # convs) sep typestr lname st =
     patch_conventions convs sep typestr lname
       (if sublist conv typestr
        then (True, Some (replace typestr conv (conv @ sep @ lname)))
        else st)"

definition prepare_parse_type :: "workspace \<Rightarrow> bytes \<Rightarrow> int \<Rightarrow> bytes option" where
  "prepare_parse_type w typestr addr =
     (let lname = (case GetTrueName w addr of None \<Rightarrow> ''Default'' | Some n \<Rightarrow> n);
          st = patch_conventions fpconventions [] typestr lname (False, None);
          st' = (if \<not> fst st
                 then patch_conventions cconventions '' '' typestr lname st
                 else st)
      in snd st')"

subsection \<open>SkelConnection: the transport\<close>

text \<open>
  The network is the script of what will happen to the coming calls of
  \<^verbatim>\<open>h_conn.connect()\<close> and \<^verbatim>\<open>h_conn.request(...)\<close>: a request raises
  \<^verbatim>\<open>CannotSendRequest\<close> (\<open>Stale\<close>), raises another transport error (\<open>Broken\<close>), or is
  sent; then \<^verbatim>\<open>getresponse()\<close> fails (\<open>Lost\<close>) or yields a status and a body, which
  \<^verbatim>\<open>json.loads\<close> decodes or not. When the script is over the network is down.
\<close>

datatype response = Lost | Reply int "json option"

datatype exchange = Stale | Broken | Answer response

datatype http_method = GET | POST | PUT | DELETE | PATCH

type_synonym datetime = int

text \<open>
  The three shapes of endpoint: \<^verbatim>\<open>/api/1.0/samples/<md5>/\<close>, \<^verbatim>\<open>/api/1.0/samples/\<close> and
  \<^verbatim>\<open><remote_path>samples/<sample_id>/<submodule>/\<close> with its optional
  \<^verbatim>\<open>?timestamp=\<close>.
\<close>

datatype endpoint =
    Sample_by_md5 bytes
  | Sample_upload
  | Submodule json bytes "datetime option"

datatype body = Json json | Multipart

type_synonym request = "http_method \<times> endpoint \<times> body"

text \<open>
  Of the connection object: the two attributes that change, the hash of the input file,
  the network, the requests handed to \<^verbatim>\<open>h_conn.request\<close> so far, and the warnings
  given to the logger.
\<close>

record conn =
  is_online :: bool
  sample_id :: json
  input_md5 :: bytes
  connects :: "bool list"
  exchanges :: "exchange list"
  requests :: "request list"
  warnings :: "string list"

type_synonym 'a io = "('a result \<times> conn) option"

definition h_connect :: "conn \<Rightarrow> unit result \<times> conn" where
  "h_connect c =
     (case connects c of
        [] \<Rightarrow> (Inl SocketError, c)
      | up # rest \<Rightarrow> (if up then Inr () else Inl SocketError, c\<lparr>connects := rest\<rparr>))"

definition h_request :: "conn \<Rightarrow> request \<Rightarrow> response result \<times> conn" where
  "h_request c rq =
     (let c1 = c\<lparr>requests := requests c @ [rq]\<rparr> in
      case exchanges c of
        [] \<Rightarrow> (Inl SocketError, c1)
      | x # rest \<Rightarrow>
          (case x of
             Stale \<Rightarrow> Inl CannotSendRequest
           | Broken \<Rightarrow> Inl SocketError
           | Answer r \<Rightarrow> Inr r,
           c1\<lparr>exchanges := rest\<rparr>))"

text \<open>
  \<^verbatim>\<open>res = self.h_conn.getresponse()\<close> up to \<^verbatim>\<open>json.loads(data)\<close>, whose failure is
  turned into \<^verbatim>\<open>IOError\<close>.
\<close>

definition read_response :: "response \<Rightarrow> json result" where
  "read_response r =
     (case r of
        Lost \<Rightarrow> Inl SocketError
      | Reply status data \<Rightarrow> (case data of None \<Rightarrow> Inl IOError | Some j \<Rightarrow> Inr j))"

definition close_connection :: "conn \<Rightarrow> conn" where
  "close_connection c = c\<lparr>is_online := False, sample_id := JNull\<rparr>"

text \<open>
  \<^verbatim>\<open>get_online\<close> asks the server for the sample id, through \<^verbatim>\<open>poli_request\<close>, which
  calls \<^verbatim>\<open>get_online\<close> when its connection is stale. The functions between the two
  take \<^verbatim>\<open>poli_request\<close> as \<open>pr\<close>.
\<close>

definition get_sample_id_via ::
  "(conn \<Rightarrow> endpoint \<Rightarrow> json \<Rightarrow> http_method \<Rightarrow> json io) \<Rightarrow> conn \<Rightarrow> (json \<times> conn) option" where
  "get_sample_id_via pr c =
     (case pr c (Sample_by_md5 (lower (input_md5 c))) JNull GET of
        None \<Rightarrow> None
      | Some (Inl e, c1) \<Rightarrow> Some (JBool False, c1)
      | Some (Inr data, c1) \<Rightarrow>
          (case getitem data ''sample_id'' of
             Inl e \<Rightarrow> Some (JBool False, c1)
           | Inr v \<Rightarrow> Some (if v \<noteq> JNull then v else JBool False, c1)))"

text \<open>
  \<^verbatim>\<open>send_sample\<close> uploads the input file, which can be read, in one request of its
  own; an answer that is not JSON gives \<^verbatim>\<open>None\<close>.
\<close>

definition send_sample :: "conn \<Rightarrow> json result \<times> conn" where
  "send_sample c =
     (case h_request c (POST, Sample_upload, Multipart) of
        (Inl e, c1) \<Rightarrow> (Inl e, c1)
      | (Inr r, c1) \<Rightarrow>
          (case r of
             Lost \<Rightarrow> (Inl SocketError, c1)
           | Reply status data \<Rightarrow> (Inr (case data of None \<Rightarrow> JNull | Some j \<Rightarrow> j), c1)))"

definition init_sample_id_via ::
  "(conn \<Rightarrow> endpoint \<Rightarrow> json \<Rightarrow> http_method \<Rightarrow> json io) \<Rightarrow> conn \<Rightarrow> unit io" where
  "init_sample_id_via pr c =
     (if sample_id c = JNull
      then (case get_sample_id_via pr c of
              None \<Rightarrow> None
            | Some (sid, c1) \<Rightarrow>
                if \<not> truthy sid
                then (case send_sample
                             (c1\<lparr>sample_id := sid,
                                 warnings := warnings c1 @
                                   [''Sample not found on server, uploading it'']\<rparr>) of
                        (Inl e, c2) \<Rightarrow> Some (Inl e, c2)
                      | (Inr r, c2) \<Rightarrow>
                          (case get_sample_id_via pr c2 of
                             None \<Rightarrow> None
                           | Some (sid', c3) \<Rightarrow> Some (Inr (), c3\<lparr>sample_id := sid'\<rparr>)))
                else Some (Inr (), c1\<lparr>sample_id := sid\<rparr>))
      else Some (Inr (), c))"

definition do_init_via ::
  "(conn \<Rightarrow> endpoint \<Rightarrow> json \<Rightarrow> http_method \<Rightarrow> json io) \<Rightarrow> conn \<Rightarrow> unit io" where
  "do_init_via pr c =
     (case h_connect c of
        (Inl e, c1) \<Rightarrow> Some (Inl e, c1)
      | (Inr u, c1) \<Rightarrow> init_sample_id_via pr (c1\<lparr>is_online := True\<rparr>))"

definition get_online_via ::
  "(conn \<Rightarrow> endpoint \<Rightarrow> json \<Rightarrow> http_method \<Rightarrow> json io) \<Rightarrow> conn \<Rightarrow> (bool \<times> conn) option" where
  "get_online_via pr c =
     (case do_init_via pr c of
        None \<Rightarrow> None
      | Some (Inl e, c1) \<Rightarrow> Some (False, c1)
      | Some (Inr u, c1) \<Rightarrow> Some (True, c1))"

text \<open>
  \<^verbatim>\<open>poli_request(endpoint, data, method)\<close>. The first argument bounds the depth of
  reconnections inside reconnections; \<open>None\<close> is a call that needs more.
\<close>

fun poli_request :: "nat \<Rightarrow> conn \<Rightarrow> endpoint \<Rightarrow> json \<Rightarrow> http_method \<Rightarrow> json io" where
  "poli_request 0 c endpoint data method = None"
| "poli_request (Suc n) c endpoint data method =
     (if \<not> is_online c then Some (Inl IOError, c)
      else (case h_request c (method, endpoint, Json data) of
              (Inr r, c1) \<Rightarrow> Some (read_response r, c1)
            | (Inl e, c1) \<Rightarrow>
                if e = CannotSendRequest
                then (case get_online_via (poli_request n) (close_connection c1) of
                        None \<Rightarrow> None
                      | Some (up, c2) \<Rightarrow>
                          (case h_request c2 (method, endpoint, Json data) of
                             (Inr r, c3) \<Rightarrow> Some (read_response r, c3)
                           | (Inl e', c3) \<Rightarrow> Some (Inl e', c3)))
                else Some (Inl e, c1)))"

definition get_online :: "nat \<Rightarrow> conn \<Rightarrow> (bool \<times> conn) option" where
  "get_online n c = get_online_via (poli_request n) c"

definition poli_post :: "nat \<Rightarrow> conn \<Rightarrow> endpoint \<Rightarrow> json \<Rightarrow> json io" where
  "poli_post n c endpoint data = poli_request n c endpoint data POST"


definition prepare_endpoint :: "conn \<Rightarrow> bytes \<Rightarrow> endpoint" where
  "prepare_endpoint c submodule = Submodule (sample_id c) submodule None"

text \<open>A byte string of the database, as \<^verbatim>\<open>json.dumps\<close> writes it.\<close>

definition dumps_str :: "bytes option \<Rightarrow> json" where
  "dumps_str s = (case s of None \<Rightarrow> JNull | Some b \<Rightarrow> JStr (map of_char b))"

text \<open>\<^verbatim>\<open>res = self.poli_post(endpoint, data)\<close> followed by the test of \<^verbatim>\<open>res["result"]\<close>.\<close>

definition post_result :: "nat \<Rightarrow> conn \<Rightarrow> endpoint \<Rightarrow> json \<Rightarrow> json io" where
  "post_result n c endpoint data =
     (case poli_post n c endpoint data of
        None \<Rightarrow> None
      | Some (Inl e, c1) \<Rightarrow> Some (Inl e, c1)
      | Some (Inr res, c1) \<Rightarrow> Some (getitem res ''result'', c1))"

definition push_comment :: "nat \<Rightarrow> conn \<Rightarrow> int \<Rightarrow> bytes option \<Rightarrow> json io" where
  "push_comment n c address comment =
     (if comment = None then Some (Inr (JBool False), c)
      else post_result n c (prepare_endpoint c ''comments'')
             (JDict [(''address'', JInt address), (''comment'', dumps_str comment)]))"

definition push_type :: "nat \<Rightarrow> conn \<Rightarrow> int \<Rightarrow> bytes option \<Rightarrow> json io" where
  "push_type n c address mtype =
     post_result n c (prepare_endpoint c ''types'')
       (JDict [(''address'', JInt address), (''type'', dumps_str mtype)])"

definition push_name :: "nat \<Rightarrow> conn \<Rightarrow> int \<Rightarrow> bytes option \<Rightarrow> json io" where
  "push_name n c address name =
     (if name = None then Some (Inr (JBool False), c)
      else (case post_result n c (prepare_endpoint c ''names'')
                   (JDict [(''address'', JInt address), (''name'', dumps_str name)]) of
              None \<Rightarrow> None
            | Some (Inl e, c1) \<Rightarrow> Some (Inl e, c1)
            | Some (Inr flag, c1) \<Rightarrow> Some (Inr (JBool True), c1)))"



subsection \<open>SkelHooks: the interceptors\<close>



text \<open>
  \<^verbatim>\<open>SkelUIHook.postprocess\<close>, the branch of the command \<^verbatim>\<open>SetType\<close>; a \<^verbatim>\<open>KeyError\<close> is
  caught and the hook returns 0.
\<close>

definition postprocess_SetType :: "nat \<Rightarrow> workspace \<Rightarrow> conn \<Rightarrow> int \<Rightarrow> int io" where
  "postprocess_SetType n w c addr =
     (case GetType w addr of
        None \<Rightarrow> Some (Inr 0, c)
      | Some newtype \<Rightarrow>
          (case push_type n c addr (prepare_parse_type w newtype addr) of
             None \<Rightarrow> None
           | Some (Inl e, c1) \<Rightarrow> Some (if e = KeyError then Inr 0 else Inl e, c1)
           | Some (Inr sent, c1) \<Rightarrow> Some (Inr 0, c1)))"

subsection \<open>SkelSyncAgent: one synchronisation\<close>


text \<open>
  \<^verbatim>\<open>datetime.datetime.strptime(item["timestamp"], format_ts)\<close>. The parser of the
  standard library is the parameter \<open>strptime\<close>: it yields a point in time or raises
  \<^verbatim>\<open>ValueError\<close>.
\<close>

definition parse_timestamp :: "(unicode \<Rightarrow> datetime option) \<Rightarrow> json \<Rightarrow> datetime result" where
  "parse_timestamp strptime item =
     (case getitem item ''timestamp'' of
        Inl e \<Rightarrow> Inl e
      | Inr v \<Rightarrow>
          (case v of
             JStr u \<Rightarrow> (case strptime u of None \<Rightarrow> Inl ValueError | Some t \<Rightarrow> Inr t)
           | _ \<Rightarrow> Inl TypeError))"

text \<open>
  \<^verbatim>\<open>for comment in comments:\<close>
  \<^verbatim>\<open>    SkelUtils.execute_comment(comment)\<close>
  \<^verbatim>\<open>    timestamp = datetime.datetime.strptime(comment["timestamp"], format_ts)\<close>
  \<^verbatim>\<open>    self.last_timestamp = max(timestamp, self.last_timestamp)\<close>
  and the same loop over the names with \<^verbatim>\<open>execute_rename\<close>: \<open>applier\<close> is one of the two.
\<close>

fun sync_loop ::
  "(workspace \<Rightarrow> json \<Rightarrow> unit result \<times> workspace) \<Rightarrow> (unicode \<Rightarrow> datetime option) \<Rightarrow>
   datetime \<times> workspace \<Rightarrow> json list \<Rightarrow> unit result \<times> datetime \<times> workspace" where
  "sync_loop applier strptime (ts, w) [] = (Inr (), ts, w)"
| "sync_loop applier strptime (ts, w) (item # items) =
     (case applier w item of
        (Inl e, w1) \<Rightarrow> (Inl e, ts, w1)
      | (Inr u, w1) \<Rightarrow>
          (case parse_timestamp strptime item of
             Inl e \<Rightarrow> (Inl e, ts, w1)
           | Inr timestamp \<Rightarrow> sync_loop applier strptime (max timestamp ts, w1) items))"




subsection \<open>SkelSyncAgent: the worker thread and its two events\<close>

text \<open>
  The thread is at one of the statements of the loop of \<^verbatim>\<open>run\<close>:
  \<^verbatim>\<open>self.update_event.wait()\<close>, \<^verbatim>\<open>self.update_event.clear()\<close>,
  \<^verbatim>\<open>if self.kill_event.wait(timeout): return 0\<close>, \<^verbatim>\<open>self.sync_names()\<close>; or it has
  returned, or left the loop on an exception. \<open>sync_calls\<close> counts the calls of
  \<^verbatim>\<open>sync_names\<close>.
\<close>

datatype pc = WaitUpdate | ClearUpdate | WaitKill | SyncNames | Returned | Broke

record thread =
  update_event :: bool
  kill_event :: bool
  at :: pc
  sync_calls :: nat

text \<open>\<^verbatim>\<open>kill\<close>: \<^verbatim>\<open>self.kill_event.set()\<close>, then \<^verbatim>\<open>self.update_event.set()\<close>.\<close>

definition kill :: "thread \<Rightarrow> thread" where
  "kill s = (s\<lparr>kill_event := True\<rparr>)\<lparr>update_event := True\<rparr>"

text \<open>
  The statements that run interleaved with one another: the timer callback \<^verbatim>\<open>update\<close>,
  the two statements of \<^verbatim>\<open>kill\<close>, and the next statement of the worker, which may
  have to wait (\<open>None\<close>); \<open>Work ok\<close> tells whether a call of \<^verbatim>\<open>sync_names\<close> returns
  (\<open>ok\<close>) or raises.
\<close>

datatype event = Tick | KillFlag | KillSignal | Work bool

definition run_step :: "bool \<Rightarrow> thread \<Rightarrow> thread option" where
  "run_step ok s =
     (case at s of
        WaitUpdate \<Rightarrow> if update_event s then Some (s\<lparr>at := ClearUpdate\<rparr>) else None
      | ClearUpdate \<Rightarrow> Some (s\<lparr>update_event := False, at := WaitKill\<rparr>)
      | WaitKill \<Rightarrow> Some (s\<lparr>at := (if kill_event s then Returned else SyncNames)\<rparr>)
      | SyncNames \<Rightarrow>
          Some (s\<lparr>sync_calls := Suc (sync_calls s), at := (if ok then WaitUpdate else Broke)\<rparr>)
      | Returned \<Rightarrow> None
      | Broke \<Rightarrow> None)"

fun fire :: "event \<Rightarrow> thread \<Rightarrow> thread option" where
  "fire Tick s = Some (if \<not> update_event s then s\<lparr>update_event := True\<rparr> else s)"
| "fire KillFlag s = Some (s\<lparr>kill_event := True\<rparr>)"
| "fire KillSignal s = Some (s\<lparr>update_event := True\<rparr>)"
| "fire (Work ok) s = run_step ok s"

fun interleaving :: "event list \<Rightarrow> thread \<Rightarrow> thread option" where
  "interleaving [] s = Some s"
| "interleaving (e # es) s =
     (case fire e s of None \<Rightarrow> None | Some s1 \<Rightarrow> interleaving es s1)"

fun is_work :: "event \<Rightarrow> bool" where
  "is_work (Work ok) = True"
| "is_work e = False"

text \<open>
  The statements between the worker and its \<^verbatim>\<open>return 0\<close> once the stop flag is set:
  wake, clear, look at the flag.
\<close>

fun statements_left :: "pc \<Rightarrow> nat" where
  "statements_left WaitUpdate = 3"
| "statements_left ClearUpdate = 2"
| "statements_left WaitKill = 1"
| "statements_left p = 0"

subsection \<open>Annotations\<close>

text \<open>
  An annotation as the server sends it: a dictionary with an integer \<^verbatim>\<open>address\<close> and a
  text \<^verbatim>\<open>data\<close>.
\<close>

definition annotation_of :: "json \<Rightarrow> (int \<times> unicode) option" where
  "annotation_of item =
     (case (getitem item ''address'', getitem item ''data'') of
        (Inr a, Inr (JStr u)) \<Rightarrow> (case as_ea a of Inl e \<Rightarrow> None | Inr ea \<Rightarrow> Some (ea, u))
      | _ \<Rightarrow> None)"

definition is_annotation :: "json \<Rightarrow> bool" where
  "is_annotation item = (annotation_of item \<noteq> None)"

text \<open>
  The repeatable comments that a batch of comment annotations sets, in order, in a
  database whose plain comments are \<open>plain\<close>.
\<close>

fun writes :: "(int \<Rightarrow> bytes option) \<Rightarrow> json list \<Rightarrow> (int \<times> bytes) list" where
  "writes plain [] = []"
| "writes plain (item # items) =
     (case annotation_of item of
        None \<Rightarrow> writes plain items
      | Some (ea, u) \<Rightarrow>
          if host_eq (plain ea) (JStr u) then writes plain items
          else (ea, encode_replace u) # writes plain items)"

definition write_rpt :: "int \<times> bytes \<Rightarrow> (int \<Rightarrow> bytes option) \<Rightarrow> int \<Rightarrow> bytes option" where
  "write_rpt x r = r(fst x := Some (snd x))"

text \<open>The timestamps of the items of a batch that have one.\<close>

fun stamps :: "(unicode \<Rightarrow> datetime option) \<Rightarrow> json list \<Rightarrow> datetime list" where
  "stamps strptime [] = []"
| "stamps strptime (item # items) =
     (case parse_timestamp strptime item of
        Inl e \<Rightarrow> stamps strptime items
      | Inr t \<Rightarrow> t # stamps strptime items)"

subsection \<open>A database and a session\<close>

text \<open>
  A small database: a function \<^verbatim>\<open>sub_4010A0\<close> and a label \<^verbatim>\<open>loc_401000\<close> in a
  program that occupies 0x401000 to 0x410FFF, and an analyst who declines every
  question. A session is online with sample 7 and has a script before it.
\<close>

definition database :: workspace where
  "database =
     \<lparr>Comment = (\<lambda>ea. None),
      RptCmt = (\<lambda>ea. None),
      GetTrueName = (\<lambda>ea. if ea = 4198560 then Some ''sub_4010A0''
                           else if ea = 4198400 then Some ''loc_401000'' else None),
      GetType = (\<lambda>ea. if ea = 4198560 then Some ''int'' else None),
      MinEA = 4198400, MaxEA = 4263935,
      analyst = (\<lambda>k. 0), asked = 0, synced = 0\<rparr>"

definition session :: "exchange list \<Rightarrow> conn" where
  "session script =
     \<lparr>is_online = True, sample_id = JInt 7, input_md5 = ''0cc175b9c0f1b6a831c399e269772661'',
      connects = [True], exchanges = script, requests = [], warnings = []\<rparr>"

text \<open>A worker that waits for the signal, after five synchronisations.\<close>

definition waiting :: thread where
  "waiting = \<lparr>update_event = False, kill_event = False, at = WaitUpdate, sync_calls = 5\<rparr>"

text \<open>
  A parser for the examples: a timestamp of fixed width, such as
  \<^verbatim>\<open>2017-03-01T10:00:00.000000+00:00\<close>, read as the number that its digits spell,
  which orders such timestamps as time does; a string without a digit is rejected.
\<close>

definition digits_of :: "unicode \<Rightarrow> nat list" where
  "digits_of u = map (\<lambda>n. n - 48) (filter (\<lambda>n. 48 \<le> n \<and> n \<le> 57) u)"

definition read_digits :: "unicode \<Rightarrow> datetime option" where
  "read_digits u =
     (if digits_of u = [] then None
      else Some (foldl (\<lambda>acc d. 10 * acc + int d) 0 (digits_of u)))"

text \<open>Two comments for the address 0x4010A0, the later one first, and an empty name batch.\<close>

definition two_comments :: "json list" where
  "two_comments =
     [JDict [(''address'', JInt 4198560), (''data'', JStr (map of_char ''parses the header'')),
             (''timestamp'', JStr (map of_char ''2017-03-02T09:30:00.000000+00:00''))],
      JDict [(''address'', JInt 4198560), (''data'', JStr (map of_char ''int x'')),
             (''timestamp'', JStr (map of_char ''2017-03-01T10:00:00.000000+00:00''))]]"




subsection \<open>The traffic of a reconnection\<close>

text \<open>The requests of \<^verbatim>\<open>get_sample_id\<close> and \<^verbatim>\<open>send_sample\<close>.\<close>

fun is_sample_request :: "request \<Rightarrow> bool" where
  "is_sample_request (m, Sample_by_md5 h, b) = True"
| "is_sample_request (m, Sample_upload, b) = True"
| "is_sample_request (m, Submodule sid sub t, b) = False"

text \<open>
  From \<open>c\<close> to \<open>c'\<close> the script has not grown and the requests made are requests about
  the sample.
\<close>

definition sample_traffic :: "conn \<Rightarrow> conn \<Rightarrow> bool" where
  "sample_traffic c c' =
     (length (exchanges c') \<le> length (exchanges c) \<and>
      take (length (requests c)) (requests c') = requests c \<and>
      list_all is_sample_request (drop (length (requests c)) (requests c')))"

section \<open>Properties\<close>

subsection \<open>The default-name filter\<close>

lemma sublist_take_Suc:
  assumes "v \<noteq> []"
  shows "sublist v (take (length v + 1) name) \<longleftrightarrow> prefix v name \<or> prefix v (drop 1 name)"
proof
  assume "sublist v (take (length v + 1) name)"
  then obtain ps ss where eq: "take (length v + 1) name = ps @ v @ ss"
    by (auto simp: sublist_def)
  then have "length (ps @ v @ ss) \<le> length v + 1"
    by (metis length_take min.cobounded2)
  then have len: "length ps + length ss \<le> 1" by simp
  have nm: "name = ps @ v @ ss @ drop (length v + 1) name"
    using eq append_take_drop_id [of "length v + 1" name] by (metis append.assoc)
  show "prefix v name \<or> prefix v (drop 1 name)"
  proof (cases ps)
    case Nil
    with nm have "name = v @ ss @ drop (length v + 1) name" by simp
    then show ?thesis by (metis prefixI)
  next
    case (Cons p ps')
    with len have "ps = [p]" by simp
    with nm have "drop 1 name = v @ ss @ drop (length v + 1) name"
      by (metis One_nat_def append_Cons append_Nil drop0 drop_Suc_Cons)
    then show ?thesis by (metis prefixI)
  qed
next
  assume "prefix v name \<or> prefix v (drop 1 name)"
  then show "sublist v (take (length v + 1) name)"
  proof
    assume "prefix v name"
    then obtain r where "name = v @ r" by (auto simp: prefix_def)
    then have "take (length v + 1) name = v @ take 1 r" by simp
    then show ?thesis by (metis sublist_append_rightI)
  next
    assume p: "prefix v (drop 1 name)"
    with assms obtain c r where "name = c # v @ r"
      by (cases name) (auto simp: prefix_def)
    then have "take (length v + 1) name = [c] @ v @ []" by simp
    then show ?thesis by (metis sublist_appendI)
  qed
qed

lemma name_blacklist_loop_iff:
  "list_all (\<lambda>v. v \<noteq> []) vs \<Longrightarrow>
   name_blacklist_loop vs name \<longleftrightarrow>
     list_ex (\<lambda>v. prefix v name \<or> prefix v (drop 1 name)) vs"
  by (induction vs) (simp_all add: sublist_take_Suc del: One_nat_def)

text \<open>
  What \<^const>\<open>name_blacklist\<close> computes: a default prefix at position 0 or at
  position 1 of the name.
\<close>

lemma name_blacklist_iff:
  "name_blacklist name \<longleftrightarrow>
     list_ex (\<lambda>v. prefix v name \<or> prefix v (drop 1 name)) default_values"
  unfolding name_blacklist_def
  by (rule name_blacklist_loop_iff) (simp add: default_values_def)

text \<open>
  C6. The default-name filter is meant to hold exactly of the names that start with one
  of \<^verbatim>\<open>sub_\<close>, \<^verbatim>\<open>dword_\<close>, \<^verbatim>\<open>unk_\<close>, \<^verbatim>\<open>byte_\<close>, \<^verbatim>\<open>word_\<close>, \<^verbatim>\<open>loc_\<close>.
  The slice \<^verbatim>\<open>name[:len(value)+1]\<close> is one character too long: the name
  \<^verbatim>\<open>xsub_1\<close> starts with none of the prefixes and is classified as a default name.
\<close>

theorem name_blacklist_second_position:
  "name_blacklist ''xsub_1'' \<and> \<not> list_ex (\<lambda>v. prefix v ''xsub_1'') default_values"
  by code_simp

subsection \<open>Type strings without a calling convention\<close>

lemma patch_conventions_absent:
  "list_all (\<lambda>conv. \<not> sublist conv typestr) convs \<Longrightarrow>
   patch_conventions convs sep typestr lname st = st"
  by (induction convs) simp_all

text \<open>A request that is answered: one exchange, no reconnection.\<close>

lemma post_result_answer:
  "is_online c \<Longrightarrow> exchanges c = Answer r # rest \<Longrightarrow>
   post_result (Suc n) c e d =
     Some (case read_response r of Inl err \<Rightarrow> Inl err | Inr res \<Rightarrow> getitem res ''result'',
           c\<lparr>requests := requests c @ [(POST, e, Json d)], exchanges := rest\<rparr>)"
  by (simp add: post_result_def poli_post_def h_request_def split: sum.splits)

text \<open>
  C10. A type string that contains none of the markers \<^verbatim>\<open>__cdecl\<close>, \<^verbatim>\<open>__stdcall\<close>,
  \<^verbatim>\<open>__fastcall\<close>, \<^verbatim>\<open>__thiscall\<close>, with or without \<^verbatim>\<open> *\<close>, is turned into \<^verbatim>\<open>None\<close> by
  \<^verbatim>\<open>prepare_parse_type\<close>, not returned as it is; the \<^verbatim>\<open>SetType\<close> branch of
  \<^verbatim>\<open>postprocess\<close> then pushes the type \<^verbatim>\<open>null\<close> for the address.
\<close>

theorem prepare_parse_type_drops_plain_type:
  assumes "list_all (\<lambda>conv. \<not> sublist conv typestr) (fpconventions @ cconventions)"
  shows "prepare_parse_type w typestr addr = None \<and>
         (GetType w addr = Some typestr \<and> is_online c \<and> exchanges c = Answer r # rest \<longrightarrow>
            (\<exists>res c1. postprocess_SetType (Suc n) w c addr = Some (res, c1) \<and>
               requests c1 = requests c @
                 [(POST, Submodule (sample_id c) ''types'' None,
                   Json (JDict [(''address'', JInt addr), (''type'', JNull)]))]))"
proof -
  have none: "prepare_parse_type w typestr addr = None"
    using assms by (simp add: prepare_parse_type_def patch_conventions_absent)
  show ?thesis
    by (auto simp: none postprocess_SetType_def push_type_def post_result_answer
        prepare_endpoint_def dumps_str_def split: sum.splits)
qed

theorem prepare_parse_type_drops_plain_type_witness:
  "list_all (\<lambda>conv. \<not> sublist conv ''int'') (fpconventions @ cconventions) \<and>
   GetType database 4198560 = Some ''int'' \<and>
   prepare_parse_type database ''int'' 4198560 = None \<and>
   (\<exists>res c1. postprocess_SetType 1 database
                (session [Answer (Reply 200 (Some (JDict [(''result'', JBool True)])))]) 4198560
                = Some (res, c1) \<and>
      requests c1 =
        [(POST, Submodule (JInt 7) ''types'' None,
          Json (JDict [(''address'', JInt 4198560), (''type'', JNull)]))])"
proof -
  have h: "list_all (\<lambda>conv. \<not> sublist conv ''int'') (fpconventions @ cconventions)"
    by code_simp
  have g: "GetType database 4198560 = Some ''int''"
    by (simp add: database_def)
  show ?thesis
    using h g prepare_parse_type_drops_plain_type [OF h, of database 4198560
        "session [Answer (Reply 200 (Some (JDict [(''result'', JBool True)])))]"
        "Reply 200 (Some (JDict [(''result'', JBool True)]))" "[]" 0]
    by (simp add: session_def)
qed

subsection \<open>What the push operations return\<close>

lemma push_name_result:
  "push_name n c address (Some name) = Some (Inr v, c1) \<Longrightarrow> v = JBool True"
  by (auto simp: push_name_def split: option.splits sum.splits prod.splits)

lemma push_result_flag:
  "is_online c \<Longrightarrow>
   exchanges c = Answer (Reply status (Some (JDict [(''result'', flag)]))) # rest \<Longrightarrow>
   map_option fst (push_comment (Suc n) c address (Some text)) = Some (Inr flag) \<and>
   map_option fst (push_type (Suc n) c address (Some text)) = Some (Inr flag) \<and>
   map_option fst (push_name (Suc n) c address (Some text)) = Some (Inr (JBool True))"
  by (simp add: push_comment_def push_type_def push_name_def post_result_answer
      read_response_def)

text \<open>
  C9. \<^verbatim>\<open>push_name\<close> is to return whether the server accepted the name, as
  \<^verbatim>\<open>push_comment\<close> returns the flag of the server. On the answer
  \<^verbatim>\<open>{"result": false}\<close> \<^verbatim>\<open>push_comment\<close> returns \<^verbatim>\<open>False\<close> and \<^verbatim>\<open>push_name\<close> returns
  \<^verbatim>\<open>True\<close>: its last statement is \<^verbatim>\<open>return True\<close>.
\<close>

theorem push_name_returns_True_when_rejected:
  "map_option fst
     (push_name 1 (session [Answer (Reply 200 (Some (JDict [(''result'', JBool False)])))])
        4198560 (Some ''ParseHeader'')) = Some (Inr (JBool True)) \<and>
   map_option fst
     (push_comment 1 (session [Answer (Reply 200 (Some (JDict [(''result'', JBool False)])))])
        4198560 (Some ''ParseHeader'')) = Some (Inr (JBool False))"
  by code_simp

subsection \<open>The rename interceptor\<close>



subsection \<open>Requests, reconnections and retries\<close>


lemma sample_traffic_iff:
  "sample_traffic c c' \<longleftrightarrow>
     length (exchanges c') \<le> length (exchanges c) \<and>
     (\<exists>xs. requests c' = requests c @ xs \<and> list_all is_sample_request xs)"
  unfolding sample_traffic_def
  by (metis append_eq_conv_conj append_take_drop_id)

lemma sample_traffic_refl: "sample_traffic c c"
  by (simp add: sample_traffic_iff)

lemma sample_traffic_trans:
  "sample_traffic c c1 \<Longrightarrow> sample_traffic c1 c2 \<Longrightarrow> sample_traffic c c2"
  by (auto simp: sample_traffic_iff)

lemma sample_traffic_update:
  "sample_traffic (c\<lparr>is_online := b\<rparr>) c' = sample_traffic c c'"
  "sample_traffic (c\<lparr>sample_id := s\<rparr>) c' = sample_traffic c c'"
  "sample_traffic (c\<lparr>warnings := ws\<rparr>) c' = sample_traffic c c'"
  "sample_traffic c (c'\<lparr>is_online := b\<rparr>) = sample_traffic c c'"
  "sample_traffic c (c'\<lparr>sample_id := s\<rparr>) = sample_traffic c c'"
  "sample_traffic c (c'\<lparr>warnings := ws\<rparr>) = sample_traffic c c'"
  by (simp_all add: sample_traffic_def)

lemma h_request_exchanges:
  "h_request c rq = (r, c1) \<Longrightarrow>
   length (exchanges c1) \<le> length (exchanges c) \<and> requests c1 = requests c @ [rq]"
  by (auto simp: h_request_def Let_def split: list.splits)

lemma h_request_stale:
  "h_request c rq = (Inl CannotSendRequest, c1) \<Longrightarrow>
   length (exchanges c1) < length (exchanges c)"
  by (auto simp: h_request_def Let_def split: list.splits exchange.splits)

lemma h_request_sample_traffic:
  "h_request c rq = (r, c1) \<Longrightarrow> is_sample_request rq \<Longrightarrow> sample_traffic c c1"
  by (auto simp: sample_traffic_iff dest: h_request_exchanges)

lemma send_sample_traffic:
  "send_sample c = (r, c1) \<Longrightarrow> sample_traffic c c1"
  by (auto simp: send_sample_def split: prod.splits sum.splits response.splits
      dest: h_request_sample_traffic)

lemma h_connect_traffic:
  "h_connect c = (r, c1) \<Longrightarrow> sample_traffic c c1"
  by (auto simp: h_connect_def sample_traffic_def split: list.splits)

lemma get_sample_id_via_total:
  assumes pr: "\<And>c h d m. length (exchanges c) < n \<Longrightarrow>
      \<exists>r c'. pr c (Sample_by_md5 h) d m = Some (r, c') \<and> sample_traffic c c'"
    and len: "length (exchanges c) < n"
  shows "\<exists>sid c'. get_sample_id_via pr c = Some (sid, c') \<and> sample_traffic c c'"
proof -
  from pr [OF len] obtain r c' where
    "pr c (Sample_by_md5 (lower (input_md5 c))) JNull GET = Some (r, c')"
    "sample_traffic c c'" by blast
  then show ?thesis
    by (auto simp: get_sample_id_via_def split: sum.splits)
qed

lemma sample_traffic_less:
  "sample_traffic c c' \<Longrightarrow> length (exchanges c) < n \<Longrightarrow> length (exchanges c') < n"
  by (simp add: sample_traffic_def)

lemma init_sample_id_via_total:
  assumes pr: "\<And>c h d m. length (exchanges c) < n \<Longrightarrow>
      \<exists>r c'. pr c (Sample_by_md5 h) d m = Some (r, c') \<and> sample_traffic c c'"
    and len: "length (exchanges c) < n"
  shows "\<exists>r c'. init_sample_id_via pr c = Some (r, c') \<and> sample_traffic c c'"
proof (cases "sample_id c = JNull")
  case False
  then show ?thesis by (simp add: init_sample_id_via_def sample_traffic_refl)
next
  case True
  from get_sample_id_via_total [of n pr c, OF pr len] obtain sid c1 where
    g1: "get_sample_id_via pr c = Some (sid, c1)"
    and t1: "sample_traffic c c1" by blast
  show ?thesis
  proof (cases "truthy sid")
    case True
    with \<open>sample_id c = JNull\<close> g1 t1 show ?thesis
      by (simp add: init_sample_id_via_def sample_traffic_update)
  next
    case False
    define c1' where "c1' = c1\<lparr>sample_id := sid,
       warnings := warnings c1 @ [''Sample not found on server, uploading it'']\<rparr>"
    obtain r2 c2 where s: "send_sample c1' = (r2, c2)" by (cases "send_sample c1'")
    have "sample_traffic c c1'" using t1 by (simp add: c1'_def sample_traffic_update)
    with send_sample_traffic [OF s] have t2: "sample_traffic c c2"
      by (rule sample_traffic_trans [rotated])
    show ?thesis
    proof (cases r2)
      case (Inl e)
      with True False g1 s t2 show ?thesis
        by (simp add: init_sample_id_via_def c1'_def)
    next
      case (Inr j)
      from sample_traffic_less [OF t2 len]
      have "length (exchanges c2) < n" .
      from get_sample_id_via_total [of n pr c2, OF pr this] obtain sid' c3 where
        "get_sample_id_via pr c2 = Some (sid', c3)" "sample_traffic c2 c3" by blast
      with True False g1 s Inr sample_traffic_trans [OF t2] show ?thesis
        by (simp add: init_sample_id_via_def c1'_def sample_traffic_update)
    qed
  qed
qed

lemma get_online_via_total:
  assumes pr: "\<And>c h d m. length (exchanges c) < n \<Longrightarrow>
      \<exists>r c'. pr c (Sample_by_md5 h) d m = Some (r, c') \<and> sample_traffic c c'"
    and len: "length (exchanges c) < n"
  shows "\<exists>up c'. get_online_via pr c = Some (up, c') \<and> sample_traffic c c'"
proof -
  obtain r1 c1 where h: "h_connect c = (r1, c1)" by (cases "h_connect c")
  then have t1: "sample_traffic c c1" by (rule h_connect_traffic)
  show ?thesis
  proof (cases r1)
    case (Inl e)
    with h t1 show ?thesis by (auto simp: get_online_via_def do_init_via_def)
  next
    case (Inr u)
    have "length (exchanges (c1\<lparr>is_online := True\<rparr>)) < n"
      using sample_traffic_less [OF t1 len] by simp
    from init_sample_id_via_total [of n pr, OF pr this] obtain r c' where
      "init_sample_id_via pr (c1\<lparr>is_online := True\<rparr>) = Some (r, c')"
      "sample_traffic c1 c'" by (auto simp: sample_traffic_update)
    with h Inr sample_traffic_trans [OF t1] show ?thesis
      by (auto simp: get_online_via_def do_init_via_def split: sum.splits)
  qed
qed

text \<open>With a depth beyond the length of the script every request returns.\<close>

lemma poli_request_total:
  "length (exchanges c) < n \<Longrightarrow>
   \<exists>r c'. poli_request n c e d m = Some (r, c') \<and>
     length (exchanges c') \<le> length (exchanges c) \<and>
     (is_sample_request (m, e, Json d) \<longrightarrow> sample_traffic c c')"
proof (induction n arbitrary: c e d m)
  case 0
  then show ?case by simp
next
  case (Suc n)
  have IH: "\<exists>r c'. poli_request n c (Sample_by_md5 h) d m = Some (r, c') \<and> sample_traffic c c'"
    if "length (exchanges c) < n" for c h d m
    using Suc.IH [OF that, of "Sample_by_md5 h" d m] by auto
  show ?case
  proof (cases "is_online c")
    case False
    then show ?thesis by (simp add: sample_traffic_refl)
  next
    case True
    obtain r1 c1 where h: "h_request c (m, e, Json d) = (r1, c1)"
      by (cases "h_request c (m, e, Json d)")
    show ?thesis
    proof (cases "r1 = Inl CannotSendRequest")
      case False
      with True h h_request_exchanges [OF h] h_request_sample_traffic [OF h] show ?thesis
        by (cases r1) auto
    next
      case stale: True
      with h have l0: "length (exchanges c1) < length (exchanges c)"
        by (simp add: h_request_stale)
      with Suc.prems have l1: "length (exchanges (close_connection c1)) < n"
        by (simp add: close_connection_def)
      from get_online_via_total [of n "poli_request n", OF IH l1] obtain up c2 where
        g: "get_online_via (poli_request n) (close_connection c1) = Some (up, c2)"
        and t2: "sample_traffic (close_connection c1) c2" by blast
      obtain r3 c3 where h3: "h_request c2 (m, e, Json d) = (r3, c3)"
        by (cases "h_request c2 (m, e, Json d)")
      from t2 have t2': "sample_traffic c1 c2"
        by (simp add: close_connection_def sample_traffic_update)
      from h_request_exchanges [OF h3] t2' l0
      have l3: "length (exchanges c3) \<le> length (exchanges c)"
        by (simp add: sample_traffic_def)
      have "sample_traffic c c3" if "is_sample_request (m, e, Json d)"
        using h_request_sample_traffic [OF h that] t2' h_request_sample_traffic [OF h3 that]
        by (blast intro: sample_traffic_trans)
      with True h stale g h3 l3 show ?thesis
        by (cases r3) auto
    qed
  qed
qed

lemma get_online_total:
  "length (exchanges c) < n \<Longrightarrow>
   \<exists>up c'. get_online n c = Some (up, c') \<and> sample_traffic c c'"
  unfolding get_online_def
  by (rule get_online_via_total [of n "poli_request n" c])
     (use poli_request_total in \<open>fastforce\<close>)


lemma count_list_sample_traffic:
  "sample_traffic c c' \<Longrightarrow> \<not> is_sample_request rq \<Longrightarrow>
   count_list (requests c') rq = count_list (requests c) rq"
proof -
  assume t: "sample_traffic c c'" and n: "\<not> is_sample_request rq"
  from t obtain xs where xs: "requests c' = requests c @ xs" "list_all is_sample_request xs"
    by (auto simp: sample_traffic_iff)
  from xs(2) n have "count_list xs rq = 0"
    by (induction xs) auto
  with xs(1) show ?thesis by simp
qed

text \<open>
  C5. A request whose first \<^verbatim>\<open>h_conn.request\<close> raises \<^verbatim>\<open>CannotSendRequest\<close>: the
  connection is closed, \<^verbatim>\<open>get_online\<close> runs (and returns), and the same request is
  handed to \<^verbatim>\<open>h_conn.request\<close> once more. What that second call does is the outcome:
  its response is read, or its exception goes to the caller. Nothing follows it, so the
  request was made twice, unless it is a request about the sample, which the
  reconnection makes too.
\<close>

theorem poli_request_retries_once:
  assumes "is_online c" and "exchanges c = Stale # rest" and "length rest < n"
  shows "\<exists>up c2 r c3.
     get_online n (close_connection
        (c\<lparr>requests := requests c @ [(m, e, Json d)], exchanges := rest\<rparr>)) = Some (up, c2) \<and>
     h_request c2 (m, e, Json d) = (r, c3) \<and>
     poli_request (Suc n) c e d m =
       Some (case r of Inl e' \<Rightarrow> Inl e' | Inr resp \<Rightarrow> read_response resp, c3) \<and>
     (\<not> is_sample_request (m, e, Json d) \<longrightarrow>
        count_list (requests c3) (m, e, Json d) = count_list (requests c) (m, e, Json d) + 2)"
proof -
  define c1 where "c1 = c\<lparr>requests := requests c @ [(m, e, Json d)], exchanges := rest\<rparr>"
  have h1: "h_request c (m, e, Json d) = (Inl CannotSendRequest, c1)"
    using assms(2) by (simp add: h_request_def c1_def)
  have "length (exchanges (close_connection c1)) < n"
    using assms(3) by (simp add: c1_def close_connection_def)
  from get_online_total [OF this] obtain up c2 where
    g: "get_online n (close_connection c1) = Some (up, c2)"
    and t: "sample_traffic (close_connection c1) c2" by blast
  obtain r c3 where h3: "h_request c2 (m, e, Json d) = (r, c3)"
    by (cases "h_request c2 (m, e, Json d)")
  have p: "poli_request (Suc n) c e d m =
       Some (case r of Inl e' \<Rightarrow> Inl e' | Inr resp \<Rightarrow> read_response resp, c3)"
    using assms(1) h1 g h3 by (simp add: get_online_def split: sum.splits)
  have cnt: "count_list (requests c3) (m, e, Json d) = count_list (requests c) (m, e, Json d) + 2"
    if ns: "\<not> is_sample_request (m, e, Json d)"
  proof -
    have "sample_traffic c1 c2"
      using t by (simp add: close_connection_def sample_traffic_update)
    from count_list_sample_traffic [OF this ns]
    have "count_list (requests c2) (m, e, Json d) = count_list (requests c) (m, e, Json d) + 1"
      by (simp add: c1_def)
    moreover have "requests c3 = requests c2 @ [(m, e, Json d)]"
      using h_request_exchanges [OF h3] by simp
    ultimately show ?thesis by simp
  qed
  from g h3 p cnt show ?thesis unfolding c1_def by blast
qed



theorem poli_request_retries_once_witness:
  "is_online (session [Stale, Answer (Reply 200 (Some (JDict [(''sample_id'', JInt 7)]))), Stale]) \<and>
   length [Answer (Reply 200 (Some (JDict [(''sample_id'', JInt 7)]))), Stale] < 3 \<and>
   (\<exists>c3. poli_request 4
        (session [Stale, Answer (Reply 200 (Some (JDict [(''sample_id'', JInt 7)]))), Stale])
        (Submodule (JInt 7) ''names'' None)
        (JDict [(''address'', JInt 4198560), (''name'', JStr (map of_char ''start''))]) POST =
      Some (Inl CannotSendRequest, c3) \<and>
      count_list (requests c3)
        (POST, Submodule (JInt 7) ''names'' None,
         Json (JDict [(''address'', JInt 4198560), (''name'', JStr (map of_char ''start''))])) = 2)"
proof -
  let ?rest = "[Answer (Reply 200 (Some (JDict [(''sample_id'', JInt 7)]))), Stale]"
  let ?c = "session (Stale # ?rest)"
  let ?e = "Submodule (JInt 7) ''names'' None"
  let ?d = "JDict [(''address'', JInt 4198560), (''name'', JStr (map of_char ''start''))]"
  have a1: "is_online ?c" by (simp add: session_def)
  have a2: "exchanges ?c = Stale # ?rest" by (simp add: session_def)
  have a3: "length ?rest < 3" by simp
  have ns: "\<not> is_sample_request (POST, ?e, Json ?d)" by simp
  have c0: "count_list (requests ?c) (POST, ?e, Json ?d) = 0" by (simp add: session_def)
  have ev: "map_option fst (poli_request 4 ?c ?e ?d POST) = Some (Inl CannotSendRequest)"
    by code_simp
  from poli_request_retries_once [OF a1 a2 a3, of POST ?e ?d] ns c0 ev
  show ?thesis using a1 a3 by (auto simp del: poli_request.simps)
qed

subsection \<open>Stopping the worker\<close>


lemma fire_after_stop:
  assumes "fire e s = Some s'" and "kill_event s" and "at s \<noteq> SyncNames" and "at s \<noteq> Broke"
  shows "kill_event s' \<and> at s' \<noteq> SyncNames \<and> at s' \<noteq> Broke \<and>
         sync_calls s' = sync_calls s \<and>
         statements_left (at s') + (if is_work e then 1 else 0) = statements_left (at s)"
  using assms by (cases e; cases "at s") (auto simp: run_step_def split: if_splits)

lemma interleaving_after_stop:
  "interleaving es s = Some s' \<Longrightarrow> kill_event s \<Longrightarrow> at s \<noteq> SyncNames \<Longrightarrow> at s \<noteq> Broke \<Longrightarrow>
   kill_event s' \<and> at s' \<noteq> SyncNames \<and> at s' \<noteq> Broke \<and> sync_calls s' = sync_calls s \<and>
   statements_left (at s') + length (filter is_work es) = statements_left (at s)"
proof (induction es arbitrary: s)
  case Nil
  then show ?case by simp
next
  case (Cons e es)
  from Cons.prems(1) obtain s1 where f: "fire e s = Some s1" and r: "interleaving es s1 = Some s'"
    by (auto split: option.splits)
  from fire_after_stop [OF f Cons.prems(2-4)]
  have k: "kill_event s1" "at s1 \<noteq> SyncNames" "at s1 \<noteq> Broke"
    and c: "sync_calls s1 = sync_calls s"
    and l: "statements_left (at s1) + (if is_work e then 1 else 0) = statements_left (at s)"
    by simp_all
  from Cons.IH [OF r k] c l show ?case by auto
qed

text \<open>
  C8. \<^verbatim>\<open>kill\<close> sets the stop flag and the wake signal. With the stop flag set and the
  worker waiting for the signal, whatever runs next and in whatever order, \<^verbatim>\<open>sync_names\<close>
  is not called again, and the third statement the worker executes is its \<^verbatim>\<open>return 0\<close>;
  right after \<^verbatim>\<open>kill\<close> the worker is not held back and returns.
\<close>

theorem stop_ends_worker:
  "kill_event (kill s) \<and> update_event (kill s) \<and>
   (kill_event s \<and> at s = WaitUpdate \<and> interleaving es s = Some s' \<longrightarrow>
      sync_calls s' = sync_calls s \<and> at s' \<noteq> SyncNames \<and>
      (length (filter is_work es) = 3 \<longrightarrow> at s' = Returned)) \<and>
   (at s = WaitUpdate \<longrightarrow>
      interleaving [Work a, Work b, Work c] (kill s) =
        Some ((kill s)\<lparr>update_event := False, at := Returned\<rparr>))"
proof -
  have 1: "kill_event (kill s) \<and> update_event (kill s)" by (simp add: kill_def)
  have 2: "sync_calls s' = sync_calls s \<and> at s' \<noteq> SyncNames \<and>
      (length (filter is_work es) = 3 \<longrightarrow> at s' = Returned)"
    if "kill_event s" "at s = WaitUpdate" "interleaving es s = Some s'"
  proof -
    from interleaving_after_stop [OF that(3) that(1)] that(2)
    have *: "at s' \<noteq> SyncNames" "at s' \<noteq> Broke" "sync_calls s' = sync_calls s"
      "statements_left (at s') + length (filter is_work es) = 3" by simp_all
    then show ?thesis by (cases "at s'") auto
  qed
  have 3: "interleaving [Work a, Work b, Work c] (kill s) =
        Some ((kill s)\<lparr>update_event := False, at := Returned\<rparr>)" if "at s = WaitUpdate"
    using that by (simp add: kill_def run_step_def)
  from 1 2 3 show ?thesis by blast
qed

theorem stop_ends_worker_witness:
  "kill_event (kill waiting) \<and> at (kill waiting) = WaitUpdate \<and>
   interleaving [Tick, Work True, Tick, Work True, KillFlag, Work True] (kill waiting) =
     Some \<lparr>update_event = False, kill_event = True, at = Returned, sync_calls = 5\<rparr> \<and>
   length (filter is_work [Tick, Work True, Tick, Work True, KillFlag, Work True]) = 3 \<and>
   sync_calls (kill waiting) = 5"
proof -
  have i: "interleaving [Tick, Work True, Tick, Work True, KillFlag, Work True] (kill waiting) =
     Some \<lparr>update_event = False, kill_event = True, at = Returned, sync_calls = 5\<rparr>"
    by (simp add: kill_def waiting_def run_step_def)
  have k: "kill_event (kill waiting) \<and> at (kill waiting) = WaitUpdate"
    by (simp add: kill_def waiting_def)
  from k i stop_ends_worker [of "kill waiting"
      "[Tick, Work True, Tick, Work True, KillFlag, Work True]"
      "\<lparr>update_event = False, kill_event = True, at = Returned, sync_calls = 5\<rparr>"]
  show ?thesis by (simp add: kill_def waiting_def)
qed

subsection \<open>Applying comments\<close>


lemma encode_replace_ascii:
  "list_all ascii s \<Longrightarrow> encode_replace (map of_char s) = s"
  by (induction s) (simp_all add: encode_replace_def ascii_def)

lemma host_eq_encode:
  "host_eq (Some s) (JStr u) \<Longrightarrow> s = encode_replace u"
  by (auto simp: str_eq_unicode_def encode_replace_ascii)

lemma host_eq_store:
  assumes "host_eq (r ea) (JStr u)"
  shows "r(ea := Some (encode_replace u)) = r"
proof (cases "r ea")
  case None
  with assms show ?thesis by simp
next
  case (Some s)
  with assms have "s = encode_replace u" by (metis host_eq_encode)
  with Some show ?thesis by (metis fun_upd_idem)
qed

lemma annotation_ofD:
  "annotation_of item = Some (ea, u) \<Longrightarrow>
   \<exists>a. getitem item ''address'' = Inr a \<and> as_ea a = Inr ea \<and> getitem item ''data'' = Inr (JStr u)"
  by (auto simp: annotation_of_def split: sum.splits json.splits)

lemma execute_comment_annotation:
  assumes "annotation_of item = Some (ea, u)"
  shows "execute_comment w item =
     (Inr (),
      if host_eq (Comment w ea) (JStr u) \<or> host_eq (RptCmt w ea) (JStr u) then w
      else w\<lparr>synced := Suc (synced w), RptCmt := (RptCmt w)(ea := Some (encode_replace u))\<rparr>)"
proof -
  from annotation_ofD [OF assms] obtain a where
    "getitem item ''address'' = Inr a" "as_ea a = Inr ea" "getitem item ''data'' = Inr (JStr u)"
    by blast
  then show ?thesis
    by (simp add: execute_comment_def make_rpt_def MakeRptCmt_def)
qed


text \<open>The effect of one annotation on the stores.\<close>

lemma execute_comment_stores:
  assumes "annotation_of item = Some (ea, u)"
  shows "\<exists>w'. execute_comment w item = (Inr (), w') \<and>
     Comment w' = Comment w \<and> GetTrueName w' = GetTrueName w \<and>
     RptCmt w' = fold write_rpt (writes (Comment w) [item]) (RptCmt w)"
proof (cases "host_eq (Comment w ea) (JStr u)")
  case True
  with assms show ?thesis by (simp add: execute_comment_annotation)
next
  case plain: False
  show ?thesis
  proof (cases "host_eq (RptCmt w ea) (JStr u)")
    case True
    with plain assms host_eq_store [of "RptCmt w" ea u] show ?thesis
      by (simp add: execute_comment_annotation write_rpt_def)
  next
    case False
    with plain assms show ?thesis
      by (simp add: execute_comment_annotation write_rpt_def)
  qed
qed

lemma writes_Cons:
  "fold write_rpt (writes plain (item # items)) r =
   fold write_rpt (writes plain items) (fold write_rpt (writes plain [item]) r)"
  by (simp split: option.splits)

lemma sync_loop_comments_stores:
  "list_all is_annotation batch \<Longrightarrow>
   sync_loop execute_comment strptime (ts, w) batch = (Inr (), ts1, w1) \<Longrightarrow>
   Comment w1 = Comment w \<and> GetTrueName w1 = GetTrueName w \<and>
   RptCmt w1 = fold write_rpt (writes (Comment w) batch) (RptCmt w) \<and>
   list_all (\<lambda>item. \<exists>t. parse_timestamp strptime item = Inr t) batch"
proof (induction batch arbitrary: ts w)
  case Nil
  then show ?case by simp
next
  case (Cons item batch)
  from Cons.prems(1) obtain ea u where a: "annotation_of item = Some (ea, u)"
    by (auto simp: is_annotation_def)
  from execute_comment_stores [OF a, of w] obtain w' where
    e: "execute_comment w item = (Inr (), w')" and
    s: "Comment w' = Comment w" "GetTrueName w' = GetTrueName w"
       "RptCmt w' = fold write_rpt (writes (Comment w) [item]) (RptCmt w)"
    by blast
  from Cons.prems(2) e obtain t where
    p: "parse_timestamp strptime item = Inr t" and
    l: "sync_loop execute_comment strptime (max t ts, w') batch = (Inr (), ts1, w1)"
    by (auto split: sum.splits)
  from Cons.prems(1) have "list_all is_annotation batch" by simp
  from Cons.IH [OF this l] have ih:
    "Comment w1 = Comment w'" "GetTrueName w1 = GetTrueName w'"
    "RptCmt w1 = fold write_rpt (writes (Comment w') batch) (RptCmt w')"
    "list_all (\<lambda>item. \<exists>t. parse_timestamp strptime item = Inr t) batch"
    by simp_all
  have "RptCmt w1 = fold write_rpt (writes (Comment w) (item # batch)) (RptCmt w)"
    by (subst writes_Cons) (simp only: ih s)
  moreover have "list_all (\<lambda>item. \<exists>t. parse_timestamp strptime item = Inr t) (item # batch)"
    using p ih(4) by simp
  ultimately show ?case using ih(1,2) s(1,2) by simp
qed

lemma sync_loop_comments_succeeds:
  "list_all is_annotation batch \<Longrightarrow>
   list_all (\<lambda>item. \<exists>t. parse_timestamp strptime item = Inr t) batch \<Longrightarrow>
   \<exists>ts' w'. sync_loop execute_comment strptime (ts, w) batch = (Inr (), ts', w')"
proof (induction batch arbitrary: ts w)
  case Nil
  then show ?case by simp
next
  case (Cons item batch)
  from Cons.prems(1) obtain ea u where a: "annotation_of item = Some (ea, u)"
    by (auto simp: is_annotation_def)
  from Cons.prems(2) obtain t where p: "parse_timestamp strptime item = Inr t" by auto
  from execute_comment_stores [OF a, of w] obtain w' where
    e: "execute_comment w item = (Inr (), w')" by blast
  from Cons.prems have "list_all is_annotation batch"
    "list_all (\<lambda>item. \<exists>t. parse_timestamp strptime item = Inr t) batch" by simp_all
  from Cons.IH [OF this, of "max t ts" w'] obtain ts' w'' where
    "sync_loop execute_comment strptime (max t ts, w') batch = (Inr (), ts', w'')" by blast
  with e p show ?case by simp
qed

lemma fold_write_rpt_other:
  "a \<notin> fst ` set ws \<Longrightarrow> fold write_rpt ws r a = r a"
  by (induction ws arbitrary: r) (auto simp: write_rpt_def)

lemma fold_write_rpt_same:
  "a \<in> fst ` set ws \<Longrightarrow> fold write_rpt ws r a = fold write_rpt ws r' a"
proof (induction ws arbitrary: r r')
  case Nil
  then show ?case by simp
next
  case (Cons x ws)
  show ?case
  proof (cases "a \<in> fst ` set ws")
    case True
    from Cons.IH [OF True] show ?thesis by simp
  next
    case False
    with Cons.prems have x: "fst x = a" by auto
    have "fold write_rpt (x # ws) q a = write_rpt x q a" for q
      using False by (simp add: fold_write_rpt_other)
    moreover have "write_rpt x q a = Some (snd x)" for q
      using x by (simp add: write_rpt_def)
    ultimately show ?thesis by simp
  qed
qed

lemma fold_write_rpt_twice:
  "fold write_rpt ws (fold write_rpt ws r) = fold write_rpt ws r"
proof
  fix a
  show "fold write_rpt ws (fold write_rpt ws r) a = fold write_rpt ws r a"
  proof (cases "a \<in> fst ` set ws")
    case True
    then show ?thesis by (rule fold_write_rpt_same)
  next
    case False
    then show ?thesis by (simp add: fold_write_rpt_other)
  qed
qed


text \<open>
  C4. One comment annotation: when its payload equals the plain or the repeatable
  comment at its address nothing is scheduled and nothing changes; otherwise one
  \<^verbatim>\<open>execute_sync\<close> writes the repeatable comment. A batch of annotations that has gone
  through the loop of \<^verbatim>\<open>sync_names\<close> goes through it a second time and leaves the
  comments and names of the database as they were after the first.
\<close>

theorem execute_comment_idempotent:
  "(annotation_of item = Some (ea, u) \<longrightarrow>
      execute_comment w item =
        (Inr (),
         if host_eq (Comment w ea) (JStr u) \<or> host_eq (RptCmt w ea) (JStr u) then w
         else w\<lparr>synced := Suc (synced w),
                RptCmt := (RptCmt w)(ea := Some (encode_replace u))\<rparr>)) \<and>
   (list_all is_annotation batch \<and>
    sync_loop execute_comment strptime (ts, w) batch = (Inr (), ts1, w1) \<longrightarrow>
      (\<exists>ts2 w2. sync_loop execute_comment strptime (ts1, w1) batch = (Inr (), ts2, w2) \<and>
         stores w2 = stores w1))"
proof -
  have batch: "\<exists>ts2 w2. sync_loop execute_comment strptime (ts1, w1) batch = (Inr (), ts2, w2) \<and>
         stores w2 = stores w1"
    if wf: "list_all is_annotation batch"
      and once: "sync_loop execute_comment strptime (ts, w) batch = (Inr (), ts1, w1)"
  proof -
    note s1 = sync_loop_comments_stores [OF wf once]
    then have "list_all (\<lambda>item. \<exists>t. parse_timestamp strptime item = Inr t) batch"
      by simp
    from sync_loop_comments_succeeds [OF wf this, of ts1 w1] obtain ts2 w2 where
      twice: "sync_loop execute_comment strptime (ts1, w1) batch = (Inr (), ts2, w2)" by blast
    note s2 = sync_loop_comments_stores [OF wf twice]
    from s1 s2 have "stores w2 = stores w1"
      by (simp add: stores_def fold_write_rpt_twice)
    with twice show ?thesis by blast
  qed
  have item: "execute_comment w item =
        (Inr (),
         if host_eq (Comment w ea) (JStr u) \<or> host_eq (RptCmt w ea) (JStr u) then w
         else w\<lparr>synced := Suc (synced w),
                RptCmt := (RptCmt w)(ea := Some (encode_replace u))\<rparr>)"
    if "annotation_of item = Some (ea, u)"
    using that by (rule execute_comment_annotation)
  from item batch show ?thesis by blast
qed


theorem execute_comment_idempotent_witness:
  "list_all is_annotation two_comments \<and>
   (\<exists>ts1 w1 ts2 w2.
      sync_loop execute_comment read_digits (0, database) two_comments = (Inr (), ts1, w1) \<and>
      sync_loop execute_comment read_digits (ts1, w1) two_comments = (Inr (), ts2, w2) \<and>
      stores w2 = stores w1 \<and> RptCmt w1 4198560 = Some ''int x'' \<and>
      synced w1 = 2)"
proof -
  have wf: "list_all is_annotation two_comments" by code_simp
  obtain r ts1 w1 where
    once: "sync_loop execute_comment read_digits (0, database) two_comments = (r, ts1, w1)"
    by (cases "sync_loop execute_comment read_digits (0, database) two_comments")
  have ev: "(case sync_loop execute_comment read_digits (0, database) two_comments of
       (r, ts, w) \<Rightarrow> r = Inr () \<and> RptCmt w 4198560 = Some ''int x'' \<and> synced w = 2)"
    by code_simp
  with once have r: "r = Inr ()" and v: "RptCmt w1 4198560 = Some ''int x''" "synced w1 = 2"
    by simp_all
  from execute_comment_idempotent [of _ _ _ database two_comments read_digits 0 ts1 w1]
    wf once r
  obtain ts2 w2 where
    "sync_loop execute_comment read_digits (ts1, w1) two_comments = (Inr (), ts2, w2)"
    "stores w2 = stores w1" by blast
  with wf once r v show ?thesis by blast
qed

subsection \<open>The watermark\<close>











text \<open>The timestamps of a batch do not depend on the order of its items.\<close>

lemma set_stamps:
  "set (stamps strptime items) =
     {t. \<exists>item \<in> set items. parse_timestamp strptime item = Inr t}"
  by (induction items) (auto split: sum.splits)


subsection \<open>Applying names\<close>









subsection \<open>Boilerplate comments\<close>






end
